theory Spec2Isabelle
  imports Main
begin

section \<open>The header \<^verbatim>\<open>tree_sitter_swift.h\<close>\<close>

text \<open>
  The only source file is the public header
  \<^verbatim>\<open>Sources/TreeSitterSwiftGrammar/include/tree_sitter_swift.h\<close>.  It is embedded line
  by line: each of its eighteen lines is one value of \<open>line\<close>.  What a translation unit
  gets from including it is computed by a model of the conditional-inclusion part of the
  C preprocessor (\<open>pp_line\<close>, \<open>pp_lines\<close>) followed by a model of how a C or C++ compiler
  attaches linkage to the declarations that survive (\<open>elaborate\<close>).
\<close>

subsection \<open>C types, declarations and lines\<close>

type_synonym ident = string

datatype ctype =
    Void_type
  | Struct_type ident
  | Typedef_name ident
  | Const ctype
  | Pointer ctype

text \<open>
  The declaration forms of C at file scope.  The header uses \<open>Typedef\<close> and
  \<open>Function_decl\<close> only; \<open>Object_decl\<close> (a variable) and \<open>Struct_definition\<close> (a struct
  with its member list) are the forms whose absence the interface claims are about.
  A parameter list written \<^verbatim>\<open>(void)\<close> is the empty list.
\<close>

datatype decl =
    Typedef ctype ident
  | Function_decl ctype ident "ctype list"
  | Object_decl ctype ident
  | Struct_definition ident "(ctype \<times> ident) list"

datatype token_line =
    Open_extern_C
  | Close_brace
  | Decl decl

datatype line =
    Comment string
  | Blank
  | Ifndef ident
  | Ifdef ident
  | Define ident
  | Undef ident
  | Endif
  | Text token_line

text \<open>
  The header uses the directives \<^verbatim>\<open>#ifndef\<close>, \<^verbatim>\<open>#ifdef\<close>, \<^verbatim>\<open>#define\<close> and \<^verbatim>\<open>#endif\<close>.
  \<open>Undef\<close> is not used by it: it is there for the units that include the header.
\<close>

text \<open>
  The header, one entry per source line (lines 1 to 18).  The comment that follows
  \<^verbatim>\<open>#endif\<close> on line 18 is not kept.
\<close>

definition tree_sitter_swift_h :: "line list" where
  "tree_sitter_swift_h =
    [ Comment '' Minimal public header to expose the Swift tree-sitter grammar entrypoint.'',
      Blank,
      Ifndef ''TREE_SITTER_SWIFT_H_'',
      Define ''TREE_SITTER_SWIFT_H_'',
      Blank,
      Ifdef ''__cplusplus'',
      Text Open_extern_C,
      Endif,
      Blank,
      Text (Decl (Typedef (Struct_type ''TSLanguage'') ''TSLanguage'')),
      Blank,
      Text (Decl (Function_decl (Pointer (Const (Typedef_name ''TSLanguage'')))
                    ''tree_sitter_swift'' [])),
      Blank,
      Ifdef ''__cplusplus'',
      Text Close_brace,
      Endif,
      Blank,
      Endif ]"

subsection \<open>Conditional inclusion\<close>

text \<open>
  The preprocessor state: the set of defined macro names, the stack of open conditional
  groups (innermost first; an entry says whether the lines of that group are kept), and
  the lines kept so far.  A group opened inside a skipped group is skipped whatever its
  condition.  Comments and blank lines produce no tokens.  An \<^verbatim>\<open>#endif\<close> with no open
  group is an error (\<open>None\<close>).
\<close>

record pp_state =
  macros :: "ident set"
  conds :: "bool list"
  emitted :: "token_line list"

definition active :: "pp_state \<Rightarrow> bool" where
  "active st = (case conds st of [] \<Rightarrow> True | b # _ \<Rightarrow> b)"

fun pp_line :: "pp_state \<Rightarrow> line \<Rightarrow> pp_state option" where
  "pp_line st (Comment c) = Some st"
| "pp_line st Blank = Some st"
| "pp_line st (Ifndef m) = Some (st\<lparr>conds := (active st \<and> m \<notin> macros st) # conds st\<rparr>)"
| "pp_line st (Ifdef m) = Some (st\<lparr>conds := (active st \<and> m \<in> macros st) # conds st\<rparr>)"
| "pp_line st (Define m) =
     Some (if active st then st\<lparr>macros := insert m (macros st)\<rparr> else st)"
| "pp_line st (Undef m) =
     Some (if active st then st\<lparr>macros := macros st - {m}\<rparr> else st)"
| "pp_line st Endif =
     (case conds st of [] \<Rightarrow> None | _ # cs \<Rightarrow> Some (st\<lparr>conds := cs\<rparr>))"
| "pp_line st (Text t) =
     Some (if active st then st\<lparr>emitted := emitted st @ [t]\<rparr> else st)"

fun pp_lines :: "pp_state \<Rightarrow> line list \<Rightarrow> pp_state option" where
  "pp_lines st [] = Some st"
| "pp_lines st (l # ls) =
     (case pp_line st l of None \<Rightarrow> None | Some st' \<Rightarrow> pp_lines st' ls)"

text \<open>
  Preprocessing a whole translation unit starts with no open group and must end with
  none (an unterminated conditional is an error).  \<^verbatim>\<open>#include\<close> is textual: a unit that
  includes the header is the unit's lines with the header's lines in place of the
  directive, so units are written with \<open>@\<close>.
\<close>

definition preprocess :: "ident set \<Rightarrow> line list \<Rightarrow> (token_line list \<times> ident set) option" where
  "preprocess M ls =
     (case pp_lines \<lparr>macros = M, conds = [], emitted = []\<rparr> ls of
        None \<Rightarrow> None
      | Some st \<Rightarrow> if conds st = [] then Some (emitted st, macros st) else None)"

subsection \<open>Declarations and linkage\<close>

datatype language_mode = C_mode | Cpp_mode

text \<open>
  The name a function or object has for the linker: its plain name under C linkage, a
  name mangled from the name and the parameter types under C++ linkage.
\<close>

datatype symbol = C_symbol ident | Cpp_symbol ident "ctype list"

datatype entity =
    Type_alias ident ctype
  | External_function symbol ctype "ctype list"
  | External_object symbol ctype
  | Complete_struct ident "(ctype \<times> ident) list"

definition predefined :: "language_mode \<Rightarrow> ident set" where
  "predefined mode = (case mode of C_mode \<Rightarrow> {} | Cpp_mode \<Rightarrow> {''__cplusplus''})"

definition symbol_of :: "language_mode \<Rightarrow> nat \<Rightarrow> ident \<Rightarrow> ctype list \<Rightarrow> symbol" where
  "symbol_of mode depth name params =
     (if mode = C_mode \<or> 0 < depth then C_symbol name else Cpp_symbol name params)"

fun entity_of :: "language_mode \<Rightarrow> nat \<Rightarrow> decl \<Rightarrow> entity" where
  "entity_of mode depth (Typedef t name) = Type_alias name t"
| "entity_of mode depth (Function_decl ret name params) =
     External_function (symbol_of mode depth name params) ret params"
| "entity_of mode depth (Object_decl t name) =
     External_object (symbol_of mode depth name []) t"
| "entity_of mode depth (Struct_definition name members) = Complete_struct name members"

text \<open>
  \<open>elaborate mode depth\<close> reads the preprocessed lines; \<open>depth\<close> counts the open
  \<^verbatim>\<open>extern "C" {\<close> blocks.  The block is C++ syntax: a C compiler rejects it, and either
  compiler rejects a closing brace with no open block and a block left open.
\<close>

fun elaborate :: "language_mode \<Rightarrow> nat \<Rightarrow> token_line list \<Rightarrow> entity list option" where
  "elaborate mode depth [] = (if depth = 0 then Some [] else None)"
| "elaborate mode depth (Open_extern_C # ts) =
     (if mode = Cpp_mode then elaborate mode (Suc depth) ts else None)"
| "elaborate mode depth (Close_brace # ts) =
     (case depth of 0 \<Rightarrow> None | Suc d \<Rightarrow> elaborate mode d ts)"
| "elaborate mode depth (Decl d # ts) =
     (case elaborate mode depth ts of
        None \<Rightarrow> None
      | Some es \<Rightarrow> Some (entity_of mode depth d # es))"

fun alias_names :: "entity list \<Rightarrow> ident list" where
  "alias_names [] = []"
| "alias_names (Type_alias name t # es) = name # alias_names es"
| "alias_names (e # es) = alias_names es"

fun struct_names :: "entity list \<Rightarrow> ident list" where
  "struct_names [] = []"
| "struct_names (Complete_struct name ms # es) = name # struct_names es"
| "struct_names (e # es) = struct_names es"

fun external_symbols :: "entity list \<Rightarrow> symbol list" where
  "external_symbols [] = []"
| "external_symbols (External_function s ret params # es) = s # external_symbols es"
| "external_symbols (External_object s t # es) = s # external_symbols es"
| "external_symbols (e # es) = external_symbols es"

fun operations :: "entity list \<Rightarrow> (symbol \<times> ctype \<times> ctype list) list" where
  "operations [] = []"
| "operations (External_function s ret params # es) = (s, ret, params) # operations es"
| "operations (e # es) = operations es"

fun objects :: "entity list \<Rightarrow> (symbol \<times> ctype) list" where
  "objects [] = []"
| "objects (External_object s t # es) = (s, t) # objects es"
| "objects (e # es) = objects es"

text \<open>
  Compiling a unit in a language mode with the macros \<open>M\<close> given by the build: the
  compiler's own predefined macros are added, the unit is preprocessed and elaborated,
  and a typedef name or a struct body declared twice is a redefinition error.  (That is
  the rule of C99; C11 and C++ accept a repeated identical typedef, so the rule modelled
  is the strictest one.)
\<close>

definition compile :: "language_mode \<Rightarrow> ident set \<Rightarrow> line list \<Rightarrow> entity list option" where
  "compile mode M ls =
     (case preprocess (predefined mode \<union> M) ls of
        None \<Rightarrow> None
      | Some (ts, M') \<Rightarrow>
          (case elaborate mode 0 ts of
             None \<Rightarrow> None
           | Some es \<Rightarrow>
               if distinct (alias_names es) \<and> distinct (struct_names es)
               then Some es else None))"

subsection \<open>Variants of the header, for comparison\<close>

text \<open>
  The header with its linkage block removed (lines 7 and 15) and the header with its
  include guard removed (lines 3, 4 and 18).  Neither is in the repository: they are
  computed from \<open>tree_sitter_swift_h\<close> and serve to show what the two devices are for.
\<close>

definition without_linkage_block :: "line list \<Rightarrow> line list" where
  "without_linkage_block ls =
     filter (\<lambda>l. l \<noteq> Text Open_extern_C \<and> l \<noteq> Text Close_brace) ls"

definition without_include_guard :: "line list \<Rightarrow> line list" where
  "without_include_guard ls =
     butlast (filter (\<lambda>l. l \<noteq> Ifndef ''TREE_SITTER_SWIFT_H_'' \<and>
                            l \<noteq> Define ''TREE_SITTER_SWIFT_H_'') ls)"

fun points_to_const :: "ctype \<Rightarrow> bool" where
  "points_to_const (Pointer (Const t)) = True"
| "points_to_const t = False"

section \<open>The accessor behind the declaration\<close>

text \<open>
  Modelled from the spec: the body of \<^verbatim>\<open>tree_sitter_swift\<close> is not part of the header
  (the header only declares it), so the process state and the accessor below are written
  from sections 3, 4.1 and 5 of the specification.  The language description is a single
  structure with static storage, constructed once, at load time or at first use
  (\<open>language = None\<close> until then); everything else the host can observe is \<open>host\<close>.  The
  grammar tables are a parameter.
\<close>

datatype language_ref = Null_ref | Language_ref

record ('lang, 'host) process =
  language :: "'lang option"
  host :: 'host

text \<open>
  Modelled from the spec: the accessor (its body is missing from the sources) returns a
  reference to the static structure, performing at most the one-time construction of
  that structure.
\<close>

definition tree_sitter_swift ::
  "'lang \<Rightarrow> ('lang, 'host) process \<Rightarrow> language_ref \<times> ('lang, 'host) process" where
  "tree_sitter_swift tables p =
     (Language_ref,
      (case language p of None \<Rightarrow> p\<lparr>language := Some tables\<rparr> | Some l \<Rightarrow> p))"

text \<open>
  Modelled from the spec: what a reference refers to in a process state (the structure
  itself is opaque to the host, which only passes the reference on).
\<close>

fun deref :: "('lang, 'host) process \<Rightarrow> language_ref \<Rightarrow> 'lang option" where
  "deref p Null_ref = None"
| "deref p Language_ref = language p"

text \<open>
  Modelled from the spec: a run of a host process is a sequence of calls of the accessor
  and of steps of the host's own, which act on what the host can reach.  \<open>run\<close> returns,
  for every call in order, the reference returned together with the structure it refers
  to when the call returns, and the final state.
\<close>

datatype 'host event = Call | Host_step "'host \<Rightarrow> 'host"

fun run ::
  "'lang \<Rightarrow> ('lang, 'host) process \<Rightarrow> 'host event list \<Rightarrow>
     (language_ref \<times> 'lang option) list \<times> ('lang, 'host) process" where
  "run tables p [] = ([], p)"
| "run tables p (Host_step f # es) = run tables (p\<lparr>host := f (host p)\<rparr>) es"
| "run tables p (Call # es) =
     (case tree_sitter_swift tables p of
        (r, p') \<Rightarrow>
          (case run tables p' es of
             (rs, q) \<Rightarrow> ((r, deref p' r) # rs, q)))"

fun is_call :: "'host event \<Rightarrow> bool" where
  "is_call Call = True"
| "is_call (Host_step f) = False"

section \<open>Preprocessing the header\<close>

lemma pp_header_guard_defined:
  assumes "''TREE_SITTER_SWIFT_H_'' \<in> macros st"
  shows "pp_lines st tree_sitter_swift_h = Some st"
  using assms by (cases "conds st") (simp_all add: tree_sitter_swift_h_def active_def)

lemma pp_header_inactive:
  assumes "\<not> active st"
  shows "pp_lines st tree_sitter_swift_h = Some st"
  using assms by (cases "conds st") (simp_all add: tree_sitter_swift_h_def active_def)

lemma pp_header_first_c:
  assumes "active st" "''TREE_SITTER_SWIFT_H_'' \<notin> macros st" "''__cplusplus'' \<notin> macros st"
  shows "pp_lines st tree_sitter_swift_h =
           Some (st\<lparr>macros := insert ''TREE_SITTER_SWIFT_H_'' (macros st),
                    emitted := emitted st @
                      [Decl (Typedef (Struct_type ''TSLanguage'') ''TSLanguage''),
                       Decl (Function_decl (Pointer (Const (Typedef_name ''TSLanguage'')))
                               ''tree_sitter_swift'' [])]\<rparr>)"
  using assms by (simp add: tree_sitter_swift_h_def active_def)

lemma pp_header_first_cpp:
  assumes "active st" "''TREE_SITTER_SWIFT_H_'' \<notin> macros st" "''__cplusplus'' \<in> macros st"
  shows "pp_lines st tree_sitter_swift_h =
           Some (st\<lparr>macros := insert ''TREE_SITTER_SWIFT_H_'' (macros st),
                    emitted := emitted st @
                      [Open_extern_C,
                       Decl (Typedef (Struct_type ''TSLanguage'') ''TSLanguage''),
                       Decl (Function_decl (Pointer (Const (Typedef_name ''TSLanguage'')))
                               ''tree_sitter_swift'' []),
                       Close_brace]\<rparr>)"
  using assms by (simp add: tree_sitter_swift_h_def active_def)

lemma pp_lines_append:
  "pp_lines st (xs @ ys) =
     (case pp_lines st xs of None \<Rightarrow> None | Some st' \<Rightarrow> pp_lines st' ys)"
  by (induction xs arbitrary: st) (simp_all split: option.splits)

lemma pp_line_keeps_macro:
  assumes "pp_line st l = Some st'" and "l \<noteq> Undef m" and "m \<in> macros st"
  shows "m \<in> macros st'"
proof (cases l)
  case Endif
  with assms show ?thesis by (cases "conds st") auto
qed (use assms in \<open>auto split: if_splits\<close>)

lemma pp_lines_keeps_macro:
  "pp_lines st ls = Some st' \<Longrightarrow> Undef m \<notin> set ls \<Longrightarrow> m \<in> macros st \<Longrightarrow> m \<in> macros st'"
proof (induction ls arbitrary: st)
  case Nil
  then show ?case by simp
next
  case (Cons l ls)
  from Cons.prems(1) obtain st1 where step: "pp_line st l = Some st1"
    and rest: "pp_lines st1 ls = Some st'"
    by (auto split: option.splits)
  from Cons.prems(2) have here: "l \<noteq> Undef m" and later: "Undef m \<notin> set ls"
    by auto
  from pp_line_keeps_macro [OF step here Cons.prems(3)] have "m \<in> macros st1" .
  from Cons.IH [OF rest later this] show ?case .
qed

lemma header_no_undef: "Undef m \<notin> set tree_sitter_swift_h"
  by (simp add: tree_sitter_swift_h_def)

lemma repeated_header_no_undef: "Undef m \<notin> set (concat (replicate n tree_sitter_swift_h))"
  by (induction n) (simp_all add: header_no_undef)

lemma pp_header_defines_guard:
  assumes "active st" "pp_lines st tree_sitter_swift_h = Some st'"
  shows "''TREE_SITTER_SWIFT_H_'' \<in> macros st'"
proof (cases "''TREE_SITTER_SWIFT_H_'' \<in> macros st")
  case True
  from pp_header_guard_defined [OF True] assms(2) have "st' = st" by simp
  with True show ?thesis by simp
next
  case False
  show ?thesis
  proof (cases "''__cplusplus'' \<in> macros st")
    case True
    from pp_header_first_cpp [OF assms(1) False True] assms(2) show ?thesis by auto
  next
    case no_cpp: False
    from pp_header_first_c [OF assms(1) False no_cpp] assms(2) show ?thesis by auto
  qed
qed

text \<open>
  Once the header has been read at a place where lines are kept, reading it again later
  changes nothing in the preprocessor state, provided the lines in between do not
  undefine the guard macro.
\<close>

lemma pp_header_again:
  assumes "Undef ''TREE_SITTER_SWIFT_H_'' \<notin> set between"
    and "active st"
    and "pp_lines st tree_sitter_swift_h = Some st1"
    and "pp_lines st1 between = Some st2"
  shows "pp_lines st2 tree_sitter_swift_h = Some st2"
proof -
  have "''TREE_SITTER_SWIFT_H_'' \<in> macros st1"
    using pp_header_defines_guard [OF assms(2,3)] .
  from pp_lines_keeps_macro [OF assms(4) assms(1) this]
  show ?thesis by (rule pp_header_guard_defined)
qed

lemma pp_second_inclusion:
  assumes "Undef ''TREE_SITTER_SWIFT_H_'' \<notin> set between"
  shows "pp_lines \<lparr>macros = M, conds = [], emitted = []\<rparr>
      (tree_sitter_swift_h @ between @ tree_sitter_swift_h) =
   pp_lines \<lparr>macros = M, conds = [], emitted = []\<rparr> (tree_sitter_swift_h @ between)"
proof -
  let ?st = "\<lparr>macros = M, conds = [], emitted = []\<rparr>"
  have act: "active ?st" by (simp add: active_def)
  show ?thesis
  proof (cases "pp_lines ?st tree_sitter_swift_h")
    case None
    then show ?thesis by (simp add: pp_lines_append)
  next
    case (Some st1)
    show ?thesis
    proof (cases "pp_lines st1 between")
      case None
      with Some show ?thesis by (simp add: pp_lines_append)
    next
      case inner: (Some st2)
      from pp_header_again [OF assms act Some inner] Some inner
      show ?thesis by (simp add: pp_lines_append)
    qed
  qed
qed

lemma preprocess_second_inclusion:
  assumes "Undef ''TREE_SITTER_SWIFT_H_'' \<notin> set between"
  shows "preprocess M (tree_sitter_swift_h @ between @ tree_sitter_swift_h) =
   preprocess M (tree_sitter_swift_h @ between)"
  unfolding preprocess_def pp_second_inclusion [OF assms] ..

lemma preprocess_repeated:
  "preprocess M (concat (replicate (Suc n) tree_sitter_swift_h)) =
   preprocess M tree_sitter_swift_h"
proof (induction n)
  case 0
  show ?case by simp
next
  case (Suc n)
  have snoc: "replicate (Suc n) tree_sitter_swift_h =
          replicate n tree_sitter_swift_h @ [tree_sitter_swift_h]"
    by (simp add: replicate_append_same)
  have "concat (replicate (Suc (Suc n)) tree_sitter_swift_h) =
          tree_sitter_swift_h @ concat (replicate (Suc n) tree_sitter_swift_h)"
    by simp
  also have "\<dots> = tree_sitter_swift_h @
          concat (replicate n tree_sitter_swift_h @ [tree_sitter_swift_h])"
    by (simp only: snoc)
  finally have "concat (replicate (Suc (Suc n)) tree_sitter_swift_h) =
          tree_sitter_swift_h @ concat (replicate n tree_sitter_swift_h) @ tree_sitter_swift_h"
    by simp
  then have "preprocess M (concat (replicate (Suc (Suc n)) tree_sitter_swift_h)) =
          preprocess M (tree_sitter_swift_h @ concat (replicate n tree_sitter_swift_h))"
    by (simp only: preprocess_second_inclusion [OF repeated_header_no_undef])
  with Suc show ?case by simp
qed

lemma preprocess_header_c:
  assumes "''TREE_SITTER_SWIFT_H_'' \<notin> M" "''__cplusplus'' \<notin> M"
  shows "preprocess M tree_sitter_swift_h =
           Some ([Decl (Typedef (Struct_type ''TSLanguage'') ''TSLanguage''),
                  Decl (Function_decl (Pointer (Const (Typedef_name ''TSLanguage'')))
                          ''tree_sitter_swift'' [])],
                 insert ''TREE_SITTER_SWIFT_H_'' M)"
proof -
  let ?st = "\<lparr>macros = M, conds = [], emitted = []\<rparr>"
  have "active ?st" by (simp add: active_def)
  from pp_header_first_c [OF this] assms show ?thesis
    by (simp add: preprocess_def)
qed

lemma preprocess_header_cpp:
  assumes "''TREE_SITTER_SWIFT_H_'' \<notin> M" "''__cplusplus'' \<in> M"
  shows "preprocess M tree_sitter_swift_h =
           Some ([Open_extern_C,
                  Decl (Typedef (Struct_type ''TSLanguage'') ''TSLanguage''),
                  Decl (Function_decl (Pointer (Const (Typedef_name ''TSLanguage'')))
                          ''tree_sitter_swift'' []),
                  Close_brace],
                 insert ''TREE_SITTER_SWIFT_H_'' M)"
proof -
  let ?st = "\<lparr>macros = M, conds = [], emitted = []\<rparr>"
  have "active ?st" by (simp add: active_def)
  from pp_header_first_cpp [OF this] assms show ?thesis
    by (simp add: preprocess_def)
qed

lemma preprocess_header_guarded:
  assumes "''TREE_SITTER_SWIFT_H_'' \<in> M"
  shows "preprocess M tree_sitter_swift_h = Some ([], M)"
  using pp_header_guard_defined [of "\<lparr>macros = M, conds = [], emitted = []\<rparr>"] assms
  by (simp add: preprocess_def)

section \<open>Compiling the header\<close>

lemma compile_header_c:
  assumes "''TREE_SITTER_SWIFT_H_'' \<notin> M" "''__cplusplus'' \<notin> M"
  shows "compile C_mode M tree_sitter_swift_h =
           Some [Type_alias ''TSLanguage'' (Struct_type ''TSLanguage''),
                 External_function (C_symbol ''tree_sitter_swift'')
                   (Pointer (Const (Typedef_name ''TSLanguage''))) []]"
  using preprocess_header_c [OF assms]
  by (simp add: compile_def predefined_def symbol_of_def)

lemma compile_header_cpp:
  assumes "''TREE_SITTER_SWIFT_H_'' \<notin> M"
  shows "compile Cpp_mode M tree_sitter_swift_h =
           Some [Type_alias ''TSLanguage'' (Struct_type ''TSLanguage''),
                 External_function (C_symbol ''tree_sitter_swift'')
                   (Pointer (Const (Typedef_name ''TSLanguage''))) []]"
proof -
  have "preprocess (insert ''__cplusplus'' M) tree_sitter_swift_h =
          Some ([Open_extern_C,
                 Decl (Typedef (Struct_type ''TSLanguage'') ''TSLanguage''),
                 Decl (Function_decl (Pointer (Const (Typedef_name ''TSLanguage'')))
                         ''tree_sitter_swift'' []),
                 Close_brace],
                insert ''TREE_SITTER_SWIFT_H_'' (insert ''__cplusplus'' M))"
    using assms by (intro preprocess_header_cpp) simp_all
  then show ?thesis
    by (simp add: compile_def predefined_def symbol_of_def)
qed

lemma compile_header:
  assumes "''TREE_SITTER_SWIFT_H_'' \<notin> M"
    and "mode = C_mode \<longrightarrow> ''__cplusplus'' \<notin> M"
  shows "compile mode M tree_sitter_swift_h =
           Some [Type_alias ''TSLanguage'' (Struct_type ''TSLanguage''),
                 External_function (C_symbol ''tree_sitter_swift'')
                   (Pointer (Const (Typedef_name ''TSLanguage''))) []]"
  using assms compile_header_c compile_header_cpp by (cases mode) simp_all

lemma compile_header_guarded:
  assumes "''TREE_SITTER_SWIFT_H_'' \<in> M"
  shows "compile mode M tree_sitter_swift_h = Some []"
proof -
  have "''TREE_SITTER_SWIFT_H_'' \<in> predefined mode \<union> M"
    using assms by simp
  from preprocess_header_guarded [OF this] show ?thesis
    by (simp add: compile_def)
qed

lemma compile_second_inclusion:
  assumes "Undef ''TREE_SITTER_SWIFT_H_'' \<notin> set between"
  shows "compile mode M (tree_sitter_swift_h @ between @ tree_sitter_swift_h) =
   compile mode M (tree_sitter_swift_h @ between)"
  unfolding compile_def preprocess_second_inclusion [OF assms] ..

lemma compile_repeated:
  "compile mode M (concat (replicate (Suc n) tree_sitter_swift_h)) =
   compile mode M tree_sitter_swift_h"
  unfolding compile_def preprocess_repeated ..

text \<open>
  What the two devices of the header are for.  Without the linkage block a C++ unit
  refers to a mangled symbol, so the two modes disagree; without the include guard a
  second inclusion declares the typedef name again.
\<close>

lemma without_linkage_block_cpp:
  "compile Cpp_mode {} (without_linkage_block tree_sitter_swift_h) =
     Some [Type_alias ''TSLanguage'' (Struct_type ''TSLanguage''),
           External_function (Cpp_symbol ''tree_sitter_swift'' [])
             (Pointer (Const (Typedef_name ''TSLanguage''))) []]"
  by (simp add: compile_def preprocess_def predefined_def symbol_of_def active_def
      without_linkage_block_def tree_sitter_swift_h_def)

lemma without_include_guard_twice:
  "compile C_mode {} (without_include_guard tree_sitter_swift_h) =
     Some [Type_alias ''TSLanguage'' (Struct_type ''TSLanguage''),
           External_function (C_symbol ''tree_sitter_swift'')
             (Pointer (Const (Typedef_name ''TSLanguage''))) []]
   \<and> compile C_mode {} (without_include_guard tree_sitter_swift_h @
                          without_include_guard tree_sitter_swift_h) = None"
  by (simp add: compile_def preprocess_def predefined_def symbol_of_def active_def
      without_include_guard_def tree_sitter_swift_h_def)

section \<open>Runs of the accessor\<close>

lemma tree_sitter_swift_language:
  "language (snd (tree_sitter_swift tables p)) =
     Some (case language p of None \<Rightarrow> tables | Some l \<Rightarrow> l)"
  by (simp add: tree_sitter_swift_def split: option.splits)

lemma tree_sitter_swift_host:
  "host (snd (tree_sitter_swift tables p)) = host p"
  by (simp add: tree_sitter_swift_def split: option.splits)

lemma tree_sitter_swift_constructed:
  "language p = Some l \<Longrightarrow> tree_sitter_swift tables p = (Language_ref, p)"
  by (simp add: tree_sitter_swift_def)

lemma snd_run_Call:
  "snd (run tables p (Call # es)) = snd (run tables (snd (tree_sitter_swift tables p)) es)"
  by (simp split: prod.splits)

lemma fst_run_Call:
  "fst (run tables p (Call # es)) =
     (Language_ref, language (snd (tree_sitter_swift tables p)))
       # fst (run tables (snd (tree_sitter_swift tables p)) es)"
  by (simp add: tree_sitter_swift_def split: prod.splits option.splits)

lemma run_keeps_language:
  "language p = Some l \<Longrightarrow> language (snd (run tables p es)) = Some l"
proof (induction es arbitrary: p)
  case Nil
  then show ?case by simp
next
  case (Cons e es)
  show ?case
  proof (cases e)
    case Call
    from Cons.prems have "snd (tree_sitter_swift tables p) = p"
      by (simp add: tree_sitter_swift_constructed)
    with Cons Call show ?thesis
      by (simp only: snd_run_Call)
  next
    case (Host_step f)
    with Cons show ?thesis by simp
  qed
qed

lemma run_results:
  "(r, l) \<in> set (fst (run tables p es)) \<Longrightarrow>
     r = Language_ref
     \<and> l = Some (case language p of None \<Rightarrow> tables | Some x \<Rightarrow> x)
     \<and> language (snd (run tables p es)) = l"
proof (induction es arbitrary: p)
  case Nil
  then show ?case by simp
next
  case (Cons e es)
  show ?case
  proof (cases e)
    case (Host_step f)
    with Cons.prems have "(r, l) \<in> set (fst (run tables (p\<lparr>host := f (host p)\<rparr>) es))"
      by simp
    from Cons.IH [OF this] Host_step show ?thesis by simp
  next
    case Call
    let ?v = "case language p of None \<Rightarrow> tables | Some x \<Rightarrow> x"
    let ?p' = "snd (tree_sitter_swift tables p)"
    have lang: "language ?p' = Some ?v"
      by (rule tree_sitter_swift_language)
    have final: "language (snd (run tables p (e # es))) = Some ?v"
      using run_keeps_language [OF lang, of tables es] Call
      by (simp only: snd_run_Call)
    from Cons.prems Call
    consider "(r, l) = (Language_ref, language ?p')"
      | "(r, l) \<in> set (fst (run tables ?p' es))"
      by (auto simp only: fst_run_Call set_simps)
    then show ?thesis
    proof cases
      case 1
      with lang final show ?thesis by simp
    next
      case 2
      from Cons.IH [OF 2] lang final show ?thesis by simp
    qed
  qed
qed

lemma run_host_indep:
  assumes "host p = host q"
  shows "host (snd (run tables p (filter (\<lambda>e. \<not> is_call e) es))) =
         host (snd (run tables q (filter (\<lambda>e. \<not> is_call e) es)))"
  using assms
proof (induction es arbitrary: p q)
  case Nil
  then show ?case by simp
next
  case (Cons e es)
  show ?case
  proof (cases e)
    case Call
    with Cons.IH [OF Cons.prems] show ?thesis by simp
  next
    case (Host_step f)
    have "host (p\<lparr>host := f (host p)\<rparr>) = host (q\<lparr>host := f (host q)\<rparr>)"
      using Cons.prems by simp
    from Cons.IH [OF this] Host_step show ?thesis by simp
  qed
qed

lemma run_host_without_calls:
  "host (snd (run tables p es)) = host (snd (run tables p (filter (\<lambda>e. \<not> is_call e) es)))"
proof (induction es arbitrary: p)
  case Nil
  show ?case by simp
next
  case (Cons e es)
  show ?case
  proof (cases e)
    case (Host_step f)
    with Cons show ?thesis by simp
  next
    case Call
    let ?p' = "snd (tree_sitter_swift tables p)"
    have "host (snd (run tables ?p' es)) =
            host (snd (run tables ?p' (filter (\<lambda>e. \<not> is_call e) es)))"
      by (rule Cons.IH)
    also have "\<dots> = host (snd (run tables p (filter (\<lambda>e. \<not> is_call e) es)))"
      by (rule run_host_indep) (rule tree_sitter_swift_host)
    finally show ?thesis using Call by (simp only: snd_run_Call filter.simps is_call.simps) simp
  qed
qed

section \<open>The claims about the header\<close>

text \<open>
  Claim C1.  In a unit that has not defined the guard macro before, compiled as C or as
  C++, the header declares exactly one operation: the function with the external symbol
  \<^verbatim>\<open>tree_sitter_swift\<close>, with no parameters, returning a pointer to (const) \<^verbatim>\<open>TSLanguage\<close>.
  That type is an alias of \<^verbatim>\<open>struct TSLanguage\<close>, which the header never completes.
  There is no other external symbol and no object.
\<close>

theorem tree_sitter_swift_h_interface:
  assumes "''TREE_SITTER_SWIFT_H_'' \<notin> M"
    and "mode = C_mode \<longrightarrow> ''__cplusplus'' \<notin> M"
  shows "compile mode M tree_sitter_swift_h =
           Some [Type_alias ''TSLanguage'' (Struct_type ''TSLanguage''),
                 External_function (C_symbol ''tree_sitter_swift'')
                   (Pointer (Const (Typedef_name ''TSLanguage''))) []]
         \<and> map_option operations (compile mode M tree_sitter_swift_h) =
             Some [(C_symbol ''tree_sitter_swift'',
                    Pointer (Const (Typedef_name ''TSLanguage'')), [])]
         \<and> map_option external_symbols (compile mode M tree_sitter_swift_h) =
             Some [C_symbol ''tree_sitter_swift'']
         \<and> map_option objects (compile mode M tree_sitter_swift_h) = Some []
         \<and> map_option struct_names (compile mode M tree_sitter_swift_h) = Some []"
  by (simp add: compile_header [OF assms])

theorem tree_sitter_swift_h_interface_witness:
  "compile C_mode {} tree_sitter_swift_h =
     Some [Type_alias ''TSLanguage'' (Struct_type ''TSLanguage''),
           External_function (C_symbol ''tree_sitter_swift'')
             (Pointer (Const (Typedef_name ''TSLanguage''))) []]
   \<and> map_option external_symbols (compile Cpp_mode {''NDEBUG''} tree_sitter_swift_h) =
       Some [C_symbol ''tree_sitter_swift'']
   \<and> map_option objects (compile Cpp_mode {''NDEBUG''} tree_sitter_swift_h) = Some []"
  using tree_sitter_swift_h_interface [of "{}" C_mode]
    tree_sitter_swift_h_interface [of "{''NDEBUG''}" Cpp_mode]
  by simp

text \<open>
  Claim C4.  Compiled as C and compiled as C++ the header declares the same entities:
  under \<^verbatim>\<open>__cplusplus\<close> the preprocessed declarations are the C ones wrapped in an
  \<^verbatim>\<open>extern "C"\<close> block, so in both modes the function has the unmangled symbol
  \<^verbatim>\<open>tree_sitter_swift\<close> and the same type.  (A C unit does not define \<^verbatim>\<open>__cplusplus\<close>.)
\<close>

theorem tree_sitter_swift_h_same_in_C_and_Cpp:
  assumes "''__cplusplus'' \<notin> M"
  shows "compile C_mode M tree_sitter_swift_h = compile Cpp_mode M tree_sitter_swift_h
         \<and> (''TREE_SITTER_SWIFT_H_'' \<notin> M \<longrightarrow>
              map_option fst (preprocess (predefined Cpp_mode \<union> M) tree_sitter_swift_h) =
                map_option (\<lambda>(ts, M'). Open_extern_C # ts @ [Close_brace])
                  (preprocess (predefined C_mode \<union> M) tree_sitter_swift_h)
              \<and> map_option operations (compile C_mode M tree_sitter_swift_h) =
                  Some [(C_symbol ''tree_sitter_swift'',
                         Pointer (Const (Typedef_name ''TSLanguage'')), [])]
              \<and> map_option operations (compile Cpp_mode M tree_sitter_swift_h) =
                  Some [(C_symbol ''tree_sitter_swift'',
                         Pointer (Const (Typedef_name ''TSLanguage'')), [])])"
proof (cases "''TREE_SITTER_SWIFT_H_'' \<in> M")
  case True
  then show ?thesis by (simp add: compile_header_guarded)
next
  case False
  have cpp: "''__cplusplus'' \<in> insert ''__cplusplus'' M" by simp
  have guard: "''TREE_SITTER_SWIFT_H_'' \<notin> insert ''__cplusplus'' M"
    using False by simp
  show ?thesis
    using False
    by (simp add: compile_header_c [OF False assms] compile_header_cpp [OF False]
        predefined_def preprocess_header_c [OF False assms]
        preprocess_header_cpp [OF guard cpp])
qed

theorem tree_sitter_swift_h_same_in_C_and_Cpp_witness:
  "compile C_mode {} tree_sitter_swift_h = compile Cpp_mode {} tree_sitter_swift_h
   \<and> map_option operations (compile Cpp_mode {} tree_sitter_swift_h) =
       Some [(C_symbol ''tree_sitter_swift'',
              Pointer (Const (Typedef_name ''TSLanguage'')), [])]"
  using tree_sitter_swift_h_same_in_C_and_Cpp [of "{}"] by simp

text \<open>
  Claim C5, as the specification words it, for every translation unit: a second
  inclusion expands to nothing and no redefinition error can arise.  It fails for a unit
  that undefines the guard macro between two inclusions: the second inclusion emits the
  two declarations again, and the unit is rejected for the repeated typedef, while the
  unit without the second inclusion compiles.
\<close>

theorem tree_sitter_swift_h_include_guard_counterexample:
  "map_option fst
     (preprocess {} (tree_sitter_swift_h @ [Undef ''TREE_SITTER_SWIFT_H_'']
                       @ tree_sitter_swift_h)) =
     Some [Decl (Typedef (Struct_type ''TSLanguage'') ''TSLanguage''),
           Decl (Function_decl (Pointer (Const (Typedef_name ''TSLanguage'')))
                   ''tree_sitter_swift'' []),
           Decl (Typedef (Struct_type ''TSLanguage'') ''TSLanguage''),
           Decl (Function_decl (Pointer (Const (Typedef_name ''TSLanguage'')))
                   ''tree_sitter_swift'' [])]
   \<and> compile C_mode {} (tree_sitter_swift_h @ [Undef ''TREE_SITTER_SWIFT_H_'']
                           @ tree_sitter_swift_h) = None
   \<and> compile C_mode {} (tree_sitter_swift_h @ [Undef ''TREE_SITTER_SWIFT_H_'']) =
       Some [Type_alias ''TSLanguage'' (Struct_type ''TSLanguage''),
             External_function (C_symbol ''tree_sitter_swift'')
               (Pointer (Const (Typedef_name ''TSLanguage''))) []]"
  by (simp add: compile_def preprocess_def predefined_def symbol_of_def active_def
      tree_sitter_swift_h_def)

text \<open>
  Claim C5, for every translation unit that does not undefine the guard macro between
  the inclusions.  Once the header has been read where lines are kept, every later
  reading leaves the preprocessor state as it is, whatever other lines come in between;
  so a unit with a second inclusion, or with any number of inclusions in a row,
  preprocesses and compiles to what the unit with one inclusion does, and no
  redefinition error arises from the header.
\<close>

theorem tree_sitter_swift_h_include_guard:
  assumes "Undef ''TREE_SITTER_SWIFT_H_'' \<notin> set between"
  shows "(\<forall>st st1 st2.
      active st \<and> pp_lines st tree_sitter_swift_h = Some st1
        \<and> pp_lines st1 between = Some st2
      \<longrightarrow> pp_lines st2 tree_sitter_swift_h = Some st2)
   \<and> preprocess M (tree_sitter_swift_h @ between @ tree_sitter_swift_h) =
       preprocess M (tree_sitter_swift_h @ between)
   \<and> compile mode M (tree_sitter_swift_h @ between @ tree_sitter_swift_h) =
       compile mode M (tree_sitter_swift_h @ between)
   \<and> compile mode M (concat (replicate (Suc n) tree_sitter_swift_h)) =
       compile mode M tree_sitter_swift_h
   \<and> (''TREE_SITTER_SWIFT_H_'' \<notin> M \<and> (mode = C_mode \<longrightarrow> ''__cplusplus'' \<notin> M) \<longrightarrow>
        compile mode M (concat (replicate (Suc n) tree_sitter_swift_h)) \<noteq> None)"
proof (intro conjI allI impI)
  fix st st1 st2
  assume "active st \<and> pp_lines st tree_sitter_swift_h = Some st1
            \<and> pp_lines st1 between = Some st2"
  then show "pp_lines st2 tree_sitter_swift_h = Some st2"
    using pp_header_again [OF assms] by blast
next
  show "preprocess M (tree_sitter_swift_h @ between @ tree_sitter_swift_h) =
          preprocess M (tree_sitter_swift_h @ between)"
    by (rule preprocess_second_inclusion [OF assms])
next
  show "compile mode M (tree_sitter_swift_h @ between @ tree_sitter_swift_h) =
          compile mode M (tree_sitter_swift_h @ between)"
    by (rule compile_second_inclusion [OF assms])
next
  show "compile mode M (concat (replicate (Suc n) tree_sitter_swift_h)) =
          compile mode M tree_sitter_swift_h"
    by (rule compile_repeated)
next
  assume "''TREE_SITTER_SWIFT_H_'' \<notin> M \<and> (mode = C_mode \<longrightarrow> ''__cplusplus'' \<notin> M)"
  then have "compile mode M tree_sitter_swift_h \<noteq> None"
    using compile_header [of M mode] by simp
  then show "compile mode M (concat (replicate (Suc n) tree_sitter_swift_h)) \<noteq> None"
    unfolding compile_repeated .
qed

theorem tree_sitter_swift_h_include_guard_witness:
  "Undef ''TREE_SITTER_SWIFT_H_'' \<notin>
     set [Define ''X'', Undef ''X'', Define ''X'',
          Text (Decl (Object_decl (Typedef_name ''TSLanguage'') ''x''))]
   \<and> pp_lines \<lparr>macros = {''TREE_SITTER_SWIFT_H_'', ''X''}, conds = [],
             emitted = [Decl (Typedef (Struct_type ''TSLanguage'') ''TSLanguage''),
                        Decl (Function_decl (Pointer (Const (Typedef_name ''TSLanguage'')))
                                ''tree_sitter_swift'' []),
                        Decl (Object_decl (Typedef_name ''TSLanguage'') ''x'')]\<rparr>
      tree_sitter_swift_h =
     Some \<lparr>macros = {''TREE_SITTER_SWIFT_H_'', ''X''}, conds = [],
             emitted = [Decl (Typedef (Struct_type ''TSLanguage'') ''TSLanguage''),
                        Decl (Function_decl (Pointer (Const (Typedef_name ''TSLanguage'')))
                                ''tree_sitter_swift'' []),
                        Decl (Object_decl (Typedef_name ''TSLanguage'') ''x'')]\<rparr>
   \<and> compile C_mode {} (concat (replicate 3 tree_sitter_swift_h)) =
       Some [Type_alias ''TSLanguage'' (Struct_type ''TSLanguage''),
             External_function (C_symbol ''tree_sitter_swift'')
               (Pointer (Const (Typedef_name ''TSLanguage''))) []]"
proof -
  let ?between = "[Define ''X'', Undef ''X'', Define ''X'',
                   Text (Decl (Object_decl (Typedef_name ''TSLanguage'') ''x''))]"
  let ?st = "\<lparr>macros = {}, conds = [], emitted = []\<rparr>"
  let ?st1 = "\<lparr>macros = {''TREE_SITTER_SWIFT_H_''}, conds = [],
               emitted = [Decl (Typedef (Struct_type ''TSLanguage'') ''TSLanguage''),
                          Decl (Function_decl (Pointer (Const (Typedef_name ''TSLanguage'')))
                                  ''tree_sitter_swift'' [])]\<rparr>"
  let ?st2 = "\<lparr>macros = {''TREE_SITTER_SWIFT_H_'', ''X''}, conds = [],
               emitted = [Decl (Typedef (Struct_type ''TSLanguage'') ''TSLanguage''),
                          Decl (Function_decl (Pointer (Const (Typedef_name ''TSLanguage'')))
                                  ''tree_sitter_swift'' []),
                          Decl (Object_decl (Typedef_name ''TSLanguage'') ''x'')]\<rparr>"
  have keeps: "Undef ''TREE_SITTER_SWIFT_H_'' \<notin> set ?between"
    by simp
  note guard = tree_sitter_swift_h_include_guard [OF keeps, of "{}" C_mode 2]
  have a: "active ?st" by (simp add: active_def)
  have b: "pp_lines ?st tree_sitter_swift_h = Some ?st1"
    by (simp add: tree_sitter_swift_h_def active_def)
  have c: "pp_lines ?st1 ?between = Some ?st2"
    by (simp add: active_def insert_commute)
  from guard a b c have "pp_lines ?st2 tree_sitter_swift_h = Some ?st2"
    by blast
  moreover from guard
  have "compile C_mode {} (concat (replicate (Suc 2) tree_sitter_swift_h)) =
      compile C_mode {} tree_sitter_swift_h"
    by blast
  moreover have "(3::nat) = Suc 2"
    by simp
  ultimately show ?thesis
    using keeps by (simp only: compile_header_c [of "{}", simplified] simp_thms)
qed

section \<open>The claims about the accessor\<close>

text \<open>
  Claim C2.  In the model of the accessor, any two calls in one run of a process return
  equal references, and the two references refer to the same structure; the reference
  returned does not depend on the process state, and a call made right after a call
  gives the same result and the same state again.
\<close>

theorem tree_sitter_swift_same_reference:
  assumes "(r1, l1) \<in> set (fst (run tables p es))"
    and "(r2, l2) \<in> set (fst (run tables p es))"
  shows "r1 = r2 \<and> l1 = l2
         \<and> fst (tree_sitter_swift tables p) = fst (tree_sitter_swift tables q)
         \<and> tree_sitter_swift tables (snd (tree_sitter_swift tables p)) =
             tree_sitter_swift tables p"
proof -
  let ?v = "Some (case language p of None \<Rightarrow> tables | Some x \<Rightarrow> x)"
  from run_results [OF assms(1)] have first: "r1 = Language_ref" "l1 = ?v"
    by blast+
  from run_results [OF assms(2)] have second: "r2 = Language_ref" "l2 = ?v"
    by blast+
  have "r1 = r2 \<and> l1 = l2"
    by (simp only: first second)
  moreover have "fst (tree_sitter_swift tables p) = fst (tree_sitter_swift tables q)"
    by (simp add: tree_sitter_swift_def)
  moreover have "tree_sitter_swift tables (snd (tree_sitter_swift tables p)) =
      tree_sitter_swift tables p"
    by (cases "language p") (simp_all add: tree_sitter_swift_def)
  ultimately show ?thesis by (intro conjI) blast+
qed

theorem tree_sitter_swift_same_reference_witness:
  "fst (run (7::nat) \<lparr>language = None, host = 0::nat\<rparr> [Call, Host_step Suc, Call]) =
     [(Language_ref, Some 7), (Language_ref, Some 7)]
   \<and> tree_sitter_swift (7::nat)
        (snd (tree_sitter_swift 7 \<lparr>language = None, host = 0::nat\<rparr>)) =
       tree_sitter_swift 7 \<lparr>language = None, host = 0::nat\<rparr>"
proof -
  let ?p = "\<lparr>language = None, host = 0::nat\<rparr>"
  let ?es = "[Call, Host_step Suc, Call]"
  have rs: "fst (run (7::nat) ?p ?es) = [(Language_ref, Some 7), (Language_ref, Some 7)]"
    by (simp add: tree_sitter_swift_def)
  have m: "(Language_ref, Some 7) \<in> set (fst (run (7::nat) ?p ?es))"
    by (simp only: rs) simp
  from tree_sitter_swift_same_reference [OF m m, of ?p] rs show ?thesis
    by simp
qed

text \<open>
  Claim C6.  The declared return type is a pointer to a const-qualified type, the only
  operation of the header takes no parameter, and the header never completes
  \<^verbatim>\<open>struct TSLanguage\<close>.  In the model of the accessor, a structure that exists is the
  same at the end of every run, and every reference a call has returned still refers, at
  the end of the run, to the structure it referred to when it was returned.
\<close>

theorem tree_sitter_swift_language_kept:
  assumes "''TREE_SITTER_SWIFT_H_'' \<notin> M"
    and "mode = C_mode \<longrightarrow> ''__cplusplus'' \<notin> M"
  shows "map_option (map (\<lambda>(s, ret, params). (points_to_const ret, params)) \<circ> operations)
           (compile mode M tree_sitter_swift_h) = Some [(True, [])]
         \<and> map_option struct_names (compile mode M tree_sitter_swift_h) = Some []
         \<and> (language p = Some l \<longrightarrow> language (snd (run tables p es)) = Some l)
         \<and> (\<forall>r s. (r, s) \<in> set (fst (run tables p es)) \<longrightarrow>
               s \<noteq> None \<and> deref (snd (run tables p es)) r = s)"
proof (intro conjI allI impI)
  show "map_option (map (\<lambda>(s, ret, params). (points_to_const ret, params)) \<circ> operations)
          (compile mode M tree_sitter_swift_h) = Some [(True, [])]"
    by (simp add: compile_header [OF assms])
  show "map_option struct_names (compile mode M tree_sitter_swift_h) = Some []"
    by (simp add: compile_header [OF assms])
next
  assume "language p = Some l"
  then show "language (snd (run tables p es)) = Some l"
    by (rule run_keeps_language)
next
  fix r s
  assume "(r, s) \<in> set (fst (run tables p es))"
  from run_results [OF this] show "s \<noteq> None" by simp
next
  fix r s
  assume "(r, s) \<in> set (fst (run tables p es))"
  from run_results [OF this] show "deref (snd (run tables p es)) r = s" by simp
qed

theorem tree_sitter_swift_language_kept_witness:
  "map_option (map (\<lambda>(s, ret, params). (points_to_const ret, params)) \<circ> operations)
     (compile Cpp_mode {} tree_sitter_swift_h) = Some [(True, [])]
   \<and> language (snd (run (7::nat) \<lparr>language = Some 5, host = 0::nat\<rparr>
                       [Call, Host_step Suc, Call])) = Some 5
   \<and> deref (snd (run (7::nat) \<lparr>language = None, host = 0::nat\<rparr> [Host_step Suc, Call]))
       Language_ref = Some 7"
proof -
  let ?p = "\<lparr>language = Some (5::nat), host = 0::nat\<rparr>"
  let ?q = "\<lparr>language = None :: nat option, host = 0::nat\<rparr>"
  have g: "''TREE_SITTER_SWIFT_H_'' \<notin> ({} :: ident set)"
    by simp
  have c: "Cpp_mode = C_mode \<longrightarrow> ''__cplusplus'' \<notin> ({} :: ident set)"
    by simp
  note kept = tree_sitter_swift_language_kept [OF g c]
  have m: "(Language_ref, Some 7) \<in> set (fst (run (7::nat) ?q [Host_step Suc, Call]))"
    by (simp add: tree_sitter_swift_def)
  have l: "language ?p = Some 5"
    by simp
  from kept [where p = ?p and l = 5 and tables = 7 and es = "[Call, Host_step Suc, Call]"] l
  have "map_option (map (\<lambda>(s, ret, params). (points_to_const ret, params)) \<circ> operations)
          (compile Cpp_mode {} tree_sitter_swift_h) = Some [(True, [])]"
    and "language (snd (run (7::nat) ?p [Call, Host_step Suc, Call])) = Some 5"
    by blast+
  moreover
  from kept [where p = ?q and l = 5 and tables = 7 and es = "[Host_step Suc, Call]"] m
  have "deref (snd (run (7::nat) ?q [Host_step Suc, Call])) Language_ref = Some 7"
    by blast
  ultimately show ?thesis
    by (intro conjI)
qed

text \<open>
  Claim C7.  In the model of the accessor, a call leaves the host's state as it is; it
  leaves the whole process state as it is once the structure exists, and otherwise only
  constructs the structure; a second call changes nothing more.  Removing every call
  from a run leaves the host's final state the same.
\<close>

theorem tree_sitter_swift_frame:
  "host (snd (tree_sitter_swift tables p)) = host p
   \<and> (language p \<noteq> None \<longrightarrow> snd (tree_sitter_swift tables p) = p)
   \<and> (language p = None \<longrightarrow>
        snd (tree_sitter_swift tables p) = p\<lparr>language := Some tables\<rparr>)
   \<and> snd (tree_sitter_swift tables (snd (tree_sitter_swift tables p))) =
       snd (tree_sitter_swift tables p)
   \<and> host (snd (run tables p es)) =
       host (snd (run tables p (filter (\<lambda>e. \<not> is_call e) es)))"
proof (intro conjI impI)
  show "host (snd (tree_sitter_swift tables p)) = host p"
    by (rule tree_sitter_swift_host)
next
  assume "language p \<noteq> None"
  then show "snd (tree_sitter_swift tables p) = p"
    by (auto simp add: tree_sitter_swift_constructed)
next
  assume "language p = None"
  then show "snd (tree_sitter_swift tables p) = p\<lparr>language := Some tables\<rparr>"
    by (simp add: tree_sitter_swift_def)
next
  show "snd (tree_sitter_swift tables (snd (tree_sitter_swift tables p))) =
          snd (tree_sitter_swift tables p)"
    by (cases "language p") (simp_all add: tree_sitter_swift_def)
next
  show "host (snd (run tables p es)) =
          host (snd (run tables p (filter (\<lambda>e. \<not> is_call e) es)))"
    by (rule run_host_without_calls)
qed

theorem tree_sitter_swift_frame_witness:
  "snd (tree_sitter_swift (7::nat) \<lparr>language = Some 5, host = 3::nat\<rparr>) =
     \<lparr>language = Some 5, host = 3\<rparr>
   \<and> snd (tree_sitter_swift (7::nat) \<lparr>language = None, host = 3::nat\<rparr>) =
       \<lparr>language = Some 7, host = 3\<rparr>
   \<and> host (snd (run (7::nat) \<lparr>language = None, host = 3::nat\<rparr>
                   [Call, Host_step Suc, Call, Host_step Suc])) = 5"
proof -
  let ?p = "\<lparr>language = Some (5::nat), host = 3::nat\<rparr>"
  let ?q = "\<lparr>language = None :: nat option, host = 3::nat\<rparr>"
  let ?es = "[Call, Host_step Suc, Call, Host_step Suc]"
  from tree_sitter_swift_frame [where p = ?p and tables = 7 and es = "[]"]
  have "snd (tree_sitter_swift 7 ?p) = ?p"
    by simp
  moreover
  note frame = tree_sitter_swift_frame [where p = ?q and tables = 7 and es = ?es]
  from frame have "snd (tree_sitter_swift 7 ?q) = ?q\<lparr>language := Some 7\<rparr>"
    by simp
  moreover
  from frame have "host (snd (run 7 ?q ?es)) =
      host (snd (run 7 ?q (filter (\<lambda>e. \<not> is_call e) ?es)))"
    by blast
  then have "host (snd (run 7 ?q ?es)) = 5"
    by simp
  ultimately show ?thesis
    by simp
qed

end
